theory Spec2Isabelle
  imports Main "HOL-Library.Multiset"
begin

section \<open>Data model (models/device.py)\<close>

datatype DeviceType = LEDGER | TREZOR | OCTRA

datatype DeviceScreen = HOME | WALLET | CONFIRM | SIGNED | ERROR_SCREEN

datatype LogLevel = INFO | SUCCESS | WARNING | ERROR

text \<open>The \<open>.value\<close> of the string enums.\<close>

fun DeviceType_value :: "DeviceType \<Rightarrow> string" where
  "DeviceType_value LEDGER = ''ledger''"
| "DeviceType_value TREZOR = ''trezor''"
| "DeviceType_value OCTRA = ''octra''"

fun DeviceScreen_value :: "DeviceScreen \<Rightarrow> string" where
  "DeviceScreen_value HOME = ''home''"
| "DeviceScreen_value WALLET = ''wallet''"
| "DeviceScreen_value CONFIRM = ''confirm''"
| "DeviceScreen_value SIGNED = ''signed''"
| "DeviceScreen_value ERROR_SCREEN = ''error''"

text \<open>A \<open>datetime\<close> is a reading of the clock, kept abstract as a number.\<close>

type_synonym datetime = nat

record DeviceInfo =
  device_type :: DeviceType
  name :: string
  firmware_version :: "string option"
  serial_number :: "string option"

record DeviceState =
  is_connected :: bool
  is_unlocked :: bool
  screen :: DeviceScreen
  balance :: string
  address :: string
  awaiting_confirmation :: bool
  last_activity :: "datetime option"
  device_info :: "DeviceInfo option"

text \<open>\<open>DeviceState()\<close>: every field at its declared default.\<close>

definition DeviceState_default :: DeviceState where
  "DeviceState_default =
     \<lparr>is_connected = False, is_unlocked = False, screen = HOME,
      balance = ''0.00000000'', address = ''octra1...'',
      awaiting_confirmation = False, last_activity = None, device_info = None\<rparr>"

record TransactionRequest =
  to_address :: string
  amount :: string
  fee :: "string option"
  memo :: "string option"
  gas_limit :: "int option"

record SignatureResult =
  signature :: string
  transaction_hash :: string
  signed_at :: datetime
  sig_device_type :: DeviceType

text \<open>The values the simulator puts into a log entry's \<open>context\<close> dictionary.\<close>

datatype ctx_value = CStr string | CInt int | CTx TransactionRequest

record LogEntry =
  log_id :: string
  timestamp :: datetime
  level :: LogLevel
  message :: string
  log_device_type :: "DeviceType option"
  log_context :: "(string \<times> ctx_value) list option"

record AddressInfo =
  addr_address :: string
  derivation_path :: string
  public_key :: string
  address_type :: string

section \<open>The environment of a call\<close>

text \<open>
  The simulator reads the clock, draws UUIDs and random tokens and hashes strings.
  A call gets these from its environment: \<open>utcnow e k\<close> is the k-th reading of
  \<open>datetime.utcnow()\<close> during the call, \<open>uuid4 e k\<close> the k-th \<open>str(uuid.uuid4())\<close>,
  \<open>token_hex e n\<close> the value of \<open>secrets.token_hex(n)\<close>, \<open>sha256_hex\<close> stands for
  \<open>hashlib.sha256(s.encode()).hexdigest()\<close>, \<open>isoformat\<close> for \<open>datetime.isoformat\<close>,
  and \<open>time_time e k\<close> is the k-th reading of \<open>time.time()\<close>, in clock ticks.
  The \<open>asyncio.sleep\<close> delays have no effect on the state and are left out; a call
  runs from start to end without another call in between.
\<close>

record env =
  utcnow :: "nat \<Rightarrow> datetime"
  uuid4 :: "nat \<Rightarrow> string"
  token_hex :: "nat \<Rightarrow> string"
  sha256_hex :: "string \<Rightarrow> string"
  isoformat :: "datetime \<Rightarrow> string"
  time_time :: "nat \<Rightarrow> int"

text \<open>Python's \<open>str\<close> of an integer, as used by the f-strings.\<close>

fun str_nat :: "nat \<Rightarrow> string" where
  "str_nat n = (if n < 10 then [''0123456789'' ! n]
                else str_nat (n div 10) @ [''0123456789'' ! (n mod 10)])"

definition str_int :: "int \<Rightarrow> string" where
  "str_int i = (if i < 0 then CHR ''-'' # str_nat (nat (- i)) else str_nat (nat i))"

section \<open>The device simulator (services/device\_simulator.py)\<close>

record DeviceSimulator =
  state :: DeviceState
  logs :: "LogEntry list"
  pending_transaction :: "TransactionRequest option"
  pin_attempts :: int

text \<open>The attributes that \<open>__init__\<close> sets and no method changes.\<close>

definition default_pin :: string where
  "default_pin = ''1234''"

definition max_pin_attempts :: int where
  "max_pin_attempts = 3"

definition mock_addresses :: "DeviceType \<rightharpoonup> string" where
  "mock_addresses =
     [LEDGER \<mapsto> ''octra1qpzry9x8gf2tvdw0s3jn54khce6mua7l5ta2m8c'',
      TREZOR \<mapsto> ''octra1abc123def456ghi789jkl012mno345pqr678stu'',
      OCTRA \<mapsto> ''octra1xyz789abc123def456ghi789jkl012mno345pqr'']"

definition mock_balances :: "DeviceType \<rightharpoonup> string" where
  "mock_balances =
     [LEDGER \<mapsto> ''125.80000000'',
      TREZOR \<mapsto> ''89.45123456'',
      OCTRA \<mapsto> ''203.12345678'']"

text \<open>\<open>d.get(k, default)\<close>.\<close>

definition dict_get :: "('k \<rightharpoonup> 'v) \<Rightarrow> 'k \<Rightarrow> 'v \<Rightarrow> 'v" where
  "dict_get d k dflt = (case d k of Some v \<Rightarrow> v | None \<Rightarrow> dflt)"

text \<open>\<open>DeviceSimulator()\<close>.\<close>

definition init :: DeviceSimulator where
  "init = \<lparr>state = DeviceState_default, logs = [], pending_transaction = None,
           pin_attempts = 0\<rparr>"

text \<open>
  The exceptions the methods raise. Each is a plain \<open>Exception\<close> with the message
  given by \<open>error_message\<close>; \<open>AttributeError_None\<close> is what reading
  \<open>device_info.device_type\<close> raises when \<open>device_info\<close> is \<open>None\<close>.
\<close>

datatype error =
    AlreadyConnected
  | NoDeviceConnected
  | NotConnected
  | NotUnlocked
  | DeviceLocked
  | AlreadyPending
  | NoPendingTransaction
  | NotReady
  | AttributeError_None

fun error_message :: "error \<Rightarrow> string" where
  "error_message AlreadyConnected = ''Device already connected''"
| "error_message NoDeviceConnected = ''No device connected''"
| "error_message NotConnected = ''Device not connected''"
| "error_message NotUnlocked = ''Device not unlocked''"
| "error_message DeviceLocked = ''Device locked due to too many invalid PIN attempts''"
| "error_message AlreadyPending = ''Another transaction is already pending confirmation''"
| "error_message NoPendingTransaction = ''No transaction pending confirmation''"
| "error_message NotReady = ''Device must be connected and unlocked''"
| "error_message AttributeError_None =
     ''NoneType object has no attribute device_type''"

text \<open>The dictionaries the methods return, one constructor for each shape.\<close>

datatype response =
    ConnectResult (r_connected: bool) (r_device: DeviceInfo) (r_connect_screen: string)
  | DisconnectResult (r_disconnected: bool)
  | AlreadyUnlockedResult (r_unlocked_a: bool) (r_already_unlocked: bool)
  | UnlockResult (r_unlocked: bool) (r_address: string) (r_balance: string)
      (r_unlock_screen: string)
  | UnlockFailedResult (r_unlocked_f: bool) (r_error: string) (r_attempts_remaining: int)
  | SignResult (r_signing_requested: bool) (r_transaction: TransactionRequest)
      (r_awaiting_confirmation: bool) (r_sign_screen: string)
  | ConfirmResult (r_confirmed: bool) (r_signature_result: SignatureResult)
      (r_confirm_screen: string)
  | RejectResult (r_confirmed_r: bool) (r_rejected: bool) (r_reject_screen: string)
  | AddressResult AddressInfo

text \<open>
  \<open>_add_log\<close>: the entry goes to the end of the list, and only the last 100 entries are
  kept. The id and the timestamp of the entry are the caller's readings.
\<close>

definition new_log_entry ::
  "string \<Rightarrow> datetime \<Rightarrow> LogLevel \<Rightarrow> string \<Rightarrow> (string \<times> ctx_value) list option \<Rightarrow>
   DeviceSimulator \<Rightarrow> LogEntry" where
  "new_log_entry uid now lvl msg ctx sim =
     \<lparr>log_id = uid, timestamp = now, level = lvl, message = msg,
      log_device_type =
        (case device_info (state sim) of
           Some di \<Rightarrow> Some (device_type di)
         | None \<Rightarrow> None),
      log_context = Some (case ctx of Some c \<Rightarrow> c | None \<Rightarrow> [])\<rparr>"

definition add_log ::
  "string \<Rightarrow> datetime \<Rightarrow> LogLevel \<Rightarrow> string \<Rightarrow> (string \<times> ctx_value) list option \<Rightarrow>
   DeviceSimulator \<Rightarrow> DeviceSimulator" where
  "add_log uid now lvl msg ctx sim =
     (let log_entry = new_log_entry uid now lvl msg ctx sim;
          logs1 = logs sim @ [log_entry]
      in sim\<lparr>logs := (if length logs1 > 100 then drop (length logs1 - 100) logs1
                       else logs1)\<rparr>)"

text \<open>
  \<open>connect_device\<close>. Each method returns the simulator after the call together with
  what the call gave back: \<open>Inl\<close> the exception raised, \<open>Inr\<close> the dictionary returned.
\<close>

definition connect_device ::
  "env \<Rightarrow> DeviceInfo \<Rightarrow> DeviceSimulator \<Rightarrow> DeviceSimulator \<times> (error + response)" where
  "connect_device e di sim =
     (if is_connected (state sim) then (sim, Inl AlreadyConnected)
      else
        let sim1 = sim\<lparr>state := (state sim)\<lparr>is_connected := True, device_info := Some di,
                                              last_activity := Some (utcnow e 0),
                                              screen := HOME\<rparr>,
                       pin_attempts := 0\<rparr>;
            sim2 = add_log (uuid4 e 0) (utcnow e 1) SUCCESS
                     (name di @ '' connected successfully'')
                     (Some [(''device_type'', CStr (DeviceType_value (device_type di)))])
                     sim1
        in (sim2, Inr (ConnectResult True di (DeviceScreen_value (screen (state sim2))))))"

definition disconnect_device ::
  "env \<Rightarrow> DeviceSimulator \<Rightarrow> DeviceSimulator \<times> (error + response)" where
  "disconnect_device e sim =
     (if \<not> is_connected (state sim) then (sim, Inl NoDeviceConnected)
      else
        let device_name = (case device_info (state sim) of
                             Some di \<Rightarrow> name di
                           | None \<Rightarrow> ''Unknown device'');
            sim1 = sim\<lparr>state := DeviceState_default, pending_transaction := None\<rparr>;
            sim2 = add_log (uuid4 e 0) (utcnow e 0) WARNING (device_name @ '' disconnected'')
                     None sim1
        in (sim2, Inr (DisconnectResult True)))"

definition unlock_device ::
  "env \<Rightarrow> string \<Rightarrow> DeviceSimulator \<Rightarrow> DeviceSimulator \<times> (error + response)" where
  "unlock_device e pin sim =
     (if \<not> is_connected (state sim) then (sim, Inl NotConnected)
      else if is_unlocked (state sim) then (sim, Inr (AlreadyUnlockedResult True True))
      else if pin = default_pin then
        let sim1 = sim\<lparr>state := (state sim)\<lparr>is_unlocked := True, screen := WALLET,
                                              last_activity := Some (utcnow e 0)\<rparr>,
                       pin_attempts := 0\<rparr>;
            sim2 = (case device_info (state sim1) of
                      Some di \<Rightarrow>
                        sim1\<lparr>state := (state sim1)
                          \<lparr>address := dict_get mock_addresses (device_type di) ''octra1...'',
                           balance := dict_get mock_balances (device_type di) ''0.00000000''\<rparr>\<rparr>
                    | None \<Rightarrow> sim1);
            sim3 = add_log (uuid4 e 0) (utcnow e 1) SUCCESS ''Device unlocked successfully''
                     None sim2
        in (sim3, Inr (UnlockResult True (address (state sim3)) (balance (state sim3))
                         (DeviceScreen_value (screen (state sim3)))))
      else
        let sim1 = sim\<lparr>pin_attempts := pin_attempts sim + 1\<rparr>;
            remaining_attempts = max_pin_attempts - pin_attempts sim1;
            sim2 = add_log (uuid4 e 0) (utcnow e 0) ERROR
                     (''Invalid PIN. '' @ str_int remaining_attempts @ '' attempts remaining'')
                     (Some [(''attempts_remaining'', CInt remaining_attempts)]) sim1
        in if remaining_attempts \<le> 0 then
             let sim3 = sim2\<lparr>state := (state sim2)\<lparr>is_connected := False\<rparr>\<rparr>;
                 sim4 = add_log (uuid4 e 1) (utcnow e 1) ERROR
                          ''Device locked due to too many invalid PIN attempts'' None sim3
             in (sim4, Inl DeviceLocked)
           else (sim2, Inr (UnlockFailedResult False ''Invalid PIN'' remaining_attempts)))"

definition sign_transaction ::
  "env \<Rightarrow> TransactionRequest \<Rightarrow> DeviceSimulator \<Rightarrow> DeviceSimulator \<times> (error + response)"
  where
  "sign_transaction e transaction sim =
     (if \<not> is_connected (state sim) then (sim, Inl NotConnected)
      else if \<not> is_unlocked (state sim) then (sim, Inl NotUnlocked)
      else if awaiting_confirmation (state sim) then (sim, Inl AlreadyPending)
      else
        let sim1 = sim\<lparr>pending_transaction := Some transaction,
                       state := (state sim)\<lparr>awaiting_confirmation := True, screen := CONFIRM,
                                              last_activity := Some (utcnow e 0)\<rparr>\<rparr>;
            sim2 = add_log (uuid4 e 0) (utcnow e 1) INFO
                     (''Transaction signing requested: '' @ amount transaction @ '' OCTRA to ''
                        @ take 10 (to_address transaction) @ ''...'')
                     (Some [(''transaction'', CTx transaction)]) sim1
        in (sim2, Inr (SignResult True transaction True
                         (DeviceScreen_value (screen (state sim2))))))"

text \<open>
  \<open>confirm_transaction\<close>. The call goes on only when \<open>awaiting_confirmation\<close> is set
  and there is a pending transaction. In the confirmed branch the screen is set to \<open>SIGNED\<close>, the
  entry is logged, and after the two-second sleep the screen is set to \<open>WALLET\<close>; the
  response dictionary is built after that, from the screen of that moment.
\<close>

definition confirm_transaction ::
  "env \<Rightarrow> bool \<Rightarrow> DeviceSimulator \<Rightarrow> DeviceSimulator \<times> (error + response)" where
  "confirm_transaction e confirmed sim =
     (case (if awaiting_confirmation (state sim) then pending_transaction sim else None) of
        None \<Rightarrow> (sim, Inl NoPendingTransaction)
      | Some tx \<Rightarrow>
          let clear = (\<lambda>s k. s\<lparr>pending_transaction := None,
                               state := (state s)\<lparr>awaiting_confirmation := False,
                                                  last_activity := Some (utcnow e k)\<rparr>\<rparr>)
          in if confirmed then
               let tx_data = to_address tx @ amount tx @ isoformat e (utcnow e 0);
                   signature = sha256_hex e tx_data;
                   tx_hash = sha256_hex e (signature @ token_hex e 16)
               in (case device_info (state sim) of
                     None \<Rightarrow> (sim, Inl AttributeError_None)
                   | Some di \<Rightarrow>
                       let result = \<lparr>signature = signature, transaction_hash = tx_hash,
                                     signed_at = utcnow e 1,
                                     sig_device_type = device_type di\<rparr>;
                           sim1 = sim\<lparr>state := (state sim)\<lparr>screen := SIGNED\<rparr>\<rparr>;
                           sim2 = add_log (uuid4 e 0) (utcnow e 2) SUCCESS
                                    (''Transaction signed successfully: '' @ take 16 tx_hash
                                       @ ''...'') None sim1;
                           sim3 = sim2\<lparr>state := (state sim2)\<lparr>screen := WALLET\<rparr>\<rparr>;
                           response = ConfirmResult True result
                                        (DeviceScreen_value (screen (state sim3)))
                       in (clear sim3 3, Inr response))
             else
               let sim1 = add_log (uuid4 e 0) (utcnow e 0) WARNING
                            ''Transaction rejected by user'' None sim;
                   sim2 = sim1\<lparr>state := (state sim1)\<lparr>screen := WALLET\<rparr>\<rparr>;
                   response = RejectResult False True
                                (DeviceScreen_value (screen (state sim2)))
               in (clear sim2 1, Inr response))"

definition generate_address ::
  "env \<Rightarrow> string \<Rightarrow> DeviceSimulator \<Rightarrow> DeviceSimulator \<times> (error + response)" where
  "generate_address e path sim =
     (if \<not> is_connected (state sim) \<or> \<not> is_unlocked (state sim) then (sim, Inl NotReady)
      else
        (case device_info (state sim) of
           None \<Rightarrow> (sim, Inl AttributeError_None)
         | Some di \<Rightarrow>
             let seed = DeviceType_value (device_type di) @ path @ token_hex e 8;
                 address_hash = sha256_hex e seed;
                 addr = ''octra1'' @ take 32 address_hash;
                 pubkey = sha256_hex e (''pubkey'' @ seed);
                 sim1 = add_log (uuid4 e 0) (utcnow e 0) INFO
                          (''Generated new address: '' @ take 16 addr @ ''...'') None sim
             in (sim1, Inr (AddressResult
                              \<lparr>addr_address = addr, derivation_path = path,
                               public_key = pubkey, address_type = ''octra''\<rparr>))))"

text \<open>\<open>get_status\<close>: the three entries of the dictionary it returns.\<close>

record Status =
  st_device_state :: DeviceState
  st_pending_transaction :: "TransactionRequest option"
  st_pin_attempts_remaining :: int

definition get_status :: "DeviceSimulator \<Rightarrow> Status" where
  "get_status sim =
     \<lparr>st_device_state = state sim,
      st_pending_transaction = pending_transaction sim,
      st_pin_attempts_remaining = max_pin_attempts - pin_attempts sim\<rparr>"

text \<open>
  \<open>get_logs\<close>: \<open>self.logs[-limit:]\<close> for a positive limit (the whole list when the limit
  is at least its length), the whole list otherwise.
\<close>

definition get_logs :: "int \<Rightarrow> DeviceSimulator \<Rightarrow> LogEntry list" where
  "get_logs limit sim =
     (if limit > 0 then drop (length (logs sim) - nat limit) (logs sim) else logs sim)"

definition clear_logs :: "env \<Rightarrow> DeviceSimulator \<Rightarrow> DeviceSimulator" where
  "clear_logs e sim =
     add_log (uuid4 e 0) (utcnow e 0) INFO ''Activity logs cleared'' None (sim\<lparr>logs := []\<rparr>)"

definition reset :: "env \<Rightarrow> DeviceSimulator \<Rightarrow> DeviceSimulator" where
  "reset e sim =
     add_log (uuid4 e 0) (utcnow e 0) INFO ''Device simulator reset'' None
       (sim\<lparr>state := DeviceState_default, pending_transaction := None, pin_attempts := 0\<rparr>)"

subsection \<open>Sequences of calls\<close>

datatype call =
    Connect DeviceInfo
  | Disconnect
  | Unlock string
  | Sign TransactionRequest
  | Confirm bool
  | GenerateAddress string
  | ClearLogs
  | Reset

text \<open>One call on the simulator, in its environment; the simulator after the call.\<close>

fun apply_operation :: "env \<times> call \<Rightarrow> DeviceSimulator \<Rightarrow> DeviceSimulator" where
  "apply_operation (e, Connect di) sim = fst (connect_device e di sim)"
| "apply_operation (e, Disconnect) sim = fst (disconnect_device e sim)"
| "apply_operation (e, Unlock pin) sim = fst (unlock_device e pin sim)"
| "apply_operation (e, Sign tx) sim = fst (sign_transaction e tx sim)"
| "apply_operation (e, Confirm c) sim = fst (confirm_transaction e c sim)"
| "apply_operation (e, GenerateAddress path) sim = fst (generate_address e path sim)"
| "apply_operation (e, ClearLogs) sim = clear_logs e sim"
| "apply_operation (e, Reset) sim = reset e sim"

fun run :: "(env \<times> call) list \<Rightarrow> DeviceSimulator \<Rightarrow> DeviceSimulator" where
  "run [] sim = sim"
| "run (c # cs) sim = run cs (apply_operation c sim)"

text \<open>A run of \<open>_add_log\<close> calls, each with its arguments.\<close>

type_synonym log_args =
  "string \<times> datetime \<times> LogLevel \<times> string \<times> (string \<times> ctx_value) list option"

fun entry_of :: "DeviceSimulator \<Rightarrow> log_args \<Rightarrow> LogEntry" where
  "entry_of sim (uid, now, lvl, msg, ctx) = new_log_entry uid now lvl msg ctx sim"

fun add_logs :: "log_args list \<Rightarrow> DeviceSimulator \<Rightarrow> DeviceSimulator" where
  "add_logs [] sim = sim"
| "add_logs ((uid, now, lvl, msg, ctx) # as) sim =
     add_logs as (add_log uid now lvl msg ctx sim)"

fun is_connect :: "call \<Rightarrow> bool" where
  "is_connect (Connect di) = True"
| "is_connect c = False"

section \<open>The computation stub (models/fhe.py, services/fhe\_service.py)\<close>

datatype FHEOperation = ADD | MULTIPLY | COMPARE | MAX_OP | AVERAGE | VOTE

fun FHEOperation_value :: "FHEOperation \<Rightarrow> string" where
  "FHEOperation_value ADD = ''add''"
| "FHEOperation_value MULTIPLY = ''multiply''"
| "FHEOperation_value COMPARE = ''compare''"
| "FHEOperation_value MAX_OP = ''max''"
| "FHEOperation_value AVERAGE = ''average''"
| "FHEOperation_value VOTE = ''vote''"

datatype FHEDataType = INTEGER | DECIMAL | BOOLEAN

record EncryptedValue =
  encrypted_data :: string
  data_type :: FHEDataType
  can_compute :: bool
  noise_level :: int

record FHEComputeRequest =
  operation :: FHEOperation
  operands :: "EncryptedValue list"
  parameters :: "(string \<times> string) list option"

record FHEComputeResult =
  res_operation :: FHEOperation
  result :: EncryptedValue
  computation_time :: int
  gas_used :: int
  success :: bool
  res_error_message :: "string option"

text \<open>
  The model constructor validates its fields: \<open>noise_level\<close> is declared with
  \<open>ge=1, le=10\<close>, and a value outside raises a validation error.
\<close>

datatype fhe_error = ValidationError

fun str_fhe_error :: "fhe_error \<Rightarrow> string" where
  "str_fhe_error ValidationError = ''1 validation error for EncryptedValue''"

definition valid_noise :: "int \<Rightarrow> bool" where
  "valid_noise n = (1 \<le> n \<and> n \<le> 10)"

definition EncryptedValue_new ::
  "string \<Rightarrow> FHEDataType \<Rightarrow> bool \<Rightarrow> int \<Rightarrow> fhe_error + EncryptedValue" where
  "EncryptedValue_new d t c n =
     (if valid_noise n
      then Inr \<lparr>encrypted_data = d, data_type = t, can_compute = c, noise_level = n\<rparr>
      else Inl ValidationError)"

definition operation_costs :: "FHEOperation \<rightharpoonup> int" where
  "operation_costs =
     [ADD \<mapsto> 100, MULTIPLY \<mapsto> 500, COMPARE \<mapsto> 300, MAX_OP \<mapsto> 400, AVERAGE \<mapsto> 600,
      VOTE \<mapsto> 200]"

text \<open>
  \<open>_mock_compute\<close>. With no operands the result type is \<open>INTEGER\<close> and the maximal noise
  is taken to be 1; otherwise they come from the operands.
\<close>

definition mock_compute ::
  "env \<Rightarrow> FHEOperation \<Rightarrow> EncryptedValue list \<Rightarrow> fhe_error + EncryptedValue" where
  "mock_compute e opn ops =
     (let combined_data = concat (map encrypted_data ops);
          operation_hash = sha256_hex e (FHEOperation_value opn @ ''_'' @ combined_data);
          result_type = (case ops of [] \<Rightarrow> INTEGER | x # xs \<Rightarrow> data_type x);
          max_noise = (case ops of
                         [] \<Rightarrow> 1
                       | x # xs \<Rightarrow> fold max (map noise_level xs) (noise_level x));
          new_noise = min (max_noise + 1) 10
      in EncryptedValue_new operation_hash result_type (new_noise < 8) new_noise)"

text \<open>
  \<open>perform_computation\<close>: the \<open>try\<close> block returns the successful result, the
  \<open>except\<close> block the failed one. The sleep before the computation is left out.
\<close>

definition perform_computation :: "env \<Rightarrow> FHEComputeRequest \<Rightarrow> FHEComputeResult" where
  "perform_computation e request =
     (let start_time = time_time e 0
      in case mock_compute e (operation request) (operands request) of
           Inr result_encrypted \<Rightarrow>
             \<lparr>res_operation = operation request, result = result_encrypted,
              computation_time = time_time e 1 - start_time,
              gas_used = dict_get operation_costs (operation request) 100,
              success = True, res_error_message = None\<rparr>
         | Inl ex \<Rightarrow>
             \<lparr>res_operation = operation request,
              result = \<lparr>encrypted_data = [], data_type = INTEGER, can_compute = True,
                        noise_level = 1\<rparr>,
              computation_time = time_time e 1 - start_time,
              gas_used = 0, success = False,
              res_error_message = Some (str_fhe_error ex)\<rparr>)"

text \<open>
  Repeated computations, each taking the previous result as its first operand, next to
  the other operands of the step. A failed step ends the chain.
\<close>

fun feed_back ::
  "env \<Rightarrow> (FHEOperation \<times> EncryptedValue list) list \<Rightarrow> EncryptedValue \<Rightarrow>
   fhe_error + EncryptedValue" where
  "feed_back e [] v = Inr v"
| "feed_back e ((opn, others) # steps) v =
     (case mock_compute e opn (v # others) of
        Inl err \<Rightarrow> Inl err
      | Inr r \<Rightarrow> feed_back e steps r)"

section \<open>The broadcast hub (services/websocket\_manager.py)\<close>

text \<open>A connection object is known by its identity.\<close>

type_synonym WebSocket = nat

record ConnectionInfo =
  connected_at :: datetime
  client_id :: nat

record WebSocketManager =
  active_connections :: "WebSocket list"
  connection_info :: "WebSocket \<rightharpoonup> ConnectionInfo"

definition disconnect :: "WebSocket \<Rightarrow> WebSocketManager \<Rightarrow> WebSocketManager" where
  "disconnect websocket m =
     (if websocket \<in> set (active_connections m)
      then m\<lparr>active_connections := remove1 websocket (active_connections m),
             connection_info := (connection_info m)(websocket := None)\<rparr>
      else m)"

text \<open>
  The first loop of \<open>broadcast\<close>. \<open>send_text c s\<close> tells whether sending \<open>s\<close> on
  connection \<open>c\<close> succeeds; when it raises, the connection is noted in
  \<open>disconnected\<close> and the loop goes on. \<open>sent\<close> records the deliveries made.
\<close>

fun broadcast_loop ::
  "(WebSocket \<Rightarrow> string \<Rightarrow> bool) \<Rightarrow> string \<Rightarrow> WebSocket list \<Rightarrow>
   (WebSocket \<times> string) list \<Rightarrow> WebSocket list \<Rightarrow>
   (WebSocket \<times> string) list \<times> WebSocket list" where
  "broadcast_loop send_text message_str [] sent disconnected = (sent, disconnected)"
| "broadcast_loop send_text message_str (connection # cs) sent disconnected =
     (if send_text connection message_str
      then broadcast_loop send_text message_str cs (sent @ [(connection, message_str)])
             disconnected
      else broadcast_loop send_text message_str cs sent (disconnected @ [connection]))"

text \<open>
  \<open>broadcast\<close>: the manager after the call and the deliveries made. \<open>json_dumps\<close>
  stands for \<open>json.dumps(message, default=str)\<close>, and \<open>msg\<close> is the message.
\<close>

definition broadcast ::
  "('m \<Rightarrow> string) \<Rightarrow> (WebSocket \<Rightarrow> string \<Rightarrow> bool) \<Rightarrow> 'm \<Rightarrow> WebSocketManager \<Rightarrow>
   WebSocketManager \<times> (WebSocket \<times> string) list" where
  "broadcast json_dumps send_text msg m =
     (if active_connections m = [] then (m, [])
      else
        let message_str = json_dumps msg;
            (sent, disconnected) =
              broadcast_loop send_text message_str (active_connections m) [] []
        in (fold disconnect disconnected m, sent))"

section \<open>Sample inputs\<close>

definition sample_env :: env where
  "sample_env =
     \<lparr>utcnow = (\<lambda>k. k), uuid4 = (\<lambda>k. ''uuid''), token_hex = (\<lambda>n. replicate (2 * n) CHR ''a''),
      sha256_hex = (\<lambda>s. s), isoformat = (\<lambda>t. ''T''), time_time = (\<lambda>k. int k)\<rparr>"

definition ledger_info :: DeviceInfo where
  "ledger_info =
     \<lparr>device_type = LEDGER, name = ''Ledger Nano S'', firmware_version = Some ''1.0.0'',
      serial_number = None\<rparr>"

definition sample_transaction :: TransactionRequest where
  "sample_transaction =
     \<lparr>to_address = ''octra1abc'', amount = ''10.5'', fee = Some ''0.001'', memo = None,
      gas_limit = Some 21000\<rparr>"

definition sample_log_args :: "log_args list" where
  "sample_log_args = map (\<lambda>k. (''id'', k, INFO, ''entry'', None)) [0..<150]"

definition sample_operands :: "EncryptedValue list" where
  "sample_operands =
     [\<lparr>encrypted_data = ''aa'', data_type = DECIMAL, can_compute = True, noise_level = 3\<rparr>,
      \<lparr>encrypted_data = ''bb'', data_type = INTEGER, can_compute = True, noise_level = 7\<rparr>]"

definition sample_value :: EncryptedValue where
  "sample_value =
     \<lparr>encrypted_data = ''cc'', data_type = INTEGER, can_compute = True, noise_level = 9\<rparr>"

definition sample_steps :: "(FHEOperation \<times> EncryptedValue list) list" where
  "sample_steps = [(ADD, []), (MULTIPLY, sample_operands)]"

definition sample_manager :: WebSocketManager where
  "sample_manager =
     \<lparr>active_connections = [1, 2, 3],
      connection_info =
        [1 \<mapsto> \<lparr>connected_at = 0, client_id = 1\<rparr>,
         2 \<mapsto> \<lparr>connected_at = 0, client_id = 2\<rparr>,
         3 \<mapsto> \<lparr>connected_at = 0, client_id = 3\<rparr>]\<rparr>"

section \<open>Invariants of the session\<close>

definition session_ok :: "DeviceSimulator \<Rightarrow> bool" where
  "session_ok sim =
     ((is_unlocked (state sim) \<longrightarrow> is_connected (state sim)) \<and>
      (awaiting_confirmation (state sim) \<longrightarrow> pending_transaction sim \<noteq> None) \<and>
      (awaiting_confirmation (state sim) \<longrightarrow> is_unlocked (state sim)) \<and>
      (is_connected (state sim) \<longrightarrow> device_info (state sim) \<noteq> None))"

section \<open>Facts about the activity log\<close>

lemma state_add_log [simp]: "state (add_log uid now lvl msg ctx sim) = state sim"
  by (simp add: add_log_def Let_def)

lemma pending_add_log [simp]:
  "pending_transaction (add_log uid now lvl msg ctx sim) = pending_transaction sim"
  by (simp add: add_log_def Let_def)

lemma pin_attempts_add_log [simp]:
  "pin_attempts (add_log uid now lvl msg ctx sim) = pin_attempts sim"
  by (simp add: add_log_def Let_def)

lemma logs_add_log:
  "logs (add_log uid now lvl msg ctx sim) =
     drop (length (logs sim) + 1 - 100) (logs sim @ [new_log_entry uid now lvl msg ctx sim])"
  by (simp add: add_log_def Let_def)

lemma length_logs_add_log: "length (logs (add_log uid now lvl msg ctx sim)) \<le> 100"
  by (simp add: logs_add_log)

lemma new_log_entry_cong:
  "state sim' = state sim \<Longrightarrow>
   new_log_entry uid now lvl msg ctx sim' = new_log_entry uid now lvl msg ctx sim"
  by (simp add: new_log_entry_def)

lemma entry_of_add_log: "entry_of (add_log uid now lvl msg ctx sim) a = entry_of sim a"
  by (cases a) (simp add: new_log_entry_def)

lemma drop_drop_append:
  "drop (length (drop (length xs - n) xs @ ys) - n) (drop (length xs - n) xs @ ys) =
   drop (length (xs @ ys) - n) (xs @ ys)"
proof (cases "length xs \<le> n")
  case True
  then show ?thesis by simp
next
  case False
  then have "length (drop (length xs - n) xs) = n" by simp
  then have "drop (length (drop (length xs - n) xs @ ys) - n) (drop (length xs - n) xs @ ys) =
    drop (length ys) (drop (length xs - n) xs @ ys)" by simp
  also have "\<dots> = drop (length ys + (length xs - n)) (xs @ ys)"
    using False by (simp add: drop_append)
  also have "\<dots> = drop (length (xs @ ys) - n) (xs @ ys)"
    using False by (simp add: add.commute)
  finally show ?thesis .
qed

lemma logs_add_logs:
  "as \<noteq> [] \<Longrightarrow>
   logs (add_logs as sim) =
     drop (length (logs sim @ map (entry_of sim) as) - 100) (logs sim @ map (entry_of sim) as)"
proof (induction as arbitrary: sim)
  case Nil
  then show ?case by simp
next
  case (Cons a as)
  obtain uid now lvl msg ctx where a: "a = (uid, now, lvl, msg, ctx)"
    by (cases a) auto
  let ?sim1 = "add_log uid now lvl msg ctx sim"
  let ?e = "new_log_entry uid now lvl msg ctx sim"
  have l1: "logs ?sim1 = drop (length (logs sim @ [?e]) - 100) (logs sim @ [?e])"
    by (simp add: logs_add_log)
  show ?case
  proof (cases "as = []")
    case True
    then show ?thesis using l1 by (simp add: a)
  next
    case False
    have m: "map (entry_of ?sim1) as = map (entry_of sim) as"
      by (simp add: entry_of_add_log)
    have "logs (add_logs (a # as) sim) = logs (add_logs as ?sim1)"
      by (simp add: a)
    also have "\<dots> = drop (length (logs ?sim1 @ map (entry_of sim) as) - 100)
                          (logs ?sim1 @ map (entry_of sim) as)"
      using Cons.IH [OF False, of ?sim1] by (simp only: m)
    also have "\<dots> = drop (length ((logs sim @ [?e]) @ map (entry_of sim) as) - 100)
                          ((logs sim @ [?e]) @ map (entry_of sim) as)"
      unfolding l1 by (rule drop_drop_append)
    finally show ?thesis by (simp add: a)
  qed
qed

lemma length_logs_add_logs:
  "length (logs sim) \<le> 100 \<Longrightarrow> length (logs (add_logs as sim)) \<le> 100"
  by (cases "as = []") (simp_all add: logs_add_logs)

section \<open>Facts about the session\<close>

lemma session_ok_init: "session_ok init"
  by (simp add: session_ok_def init_def DeviceState_default_def)

lemma session_ok_connect: "session_ok sim \<Longrightarrow> session_ok (fst (connect_device e di sim))"
  by (auto simp: session_ok_def connect_device_def Let_def)

lemma session_ok_disconnect: "session_ok sim \<Longrightarrow> session_ok (fst (disconnect_device e sim))"
  by (auto simp: session_ok_def disconnect_device_def Let_def DeviceState_default_def)

lemma session_ok_unlock: "session_ok sim \<Longrightarrow> session_ok (fst (unlock_device e pin sim))"
  by (auto simp: session_ok_def unlock_device_def Let_def split: option.splits)

lemma session_ok_sign: "session_ok sim \<Longrightarrow> session_ok (fst (sign_transaction e tx sim))"
  by (auto simp: session_ok_def sign_transaction_def Let_def)

lemma session_ok_confirm: "session_ok sim \<Longrightarrow> session_ok (fst (confirm_transaction e c sim))"
  by (auto simp: session_ok_def confirm_transaction_def Let_def split: option.splits)

lemma session_ok_generate: "session_ok sim \<Longrightarrow> session_ok (fst (generate_address e p sim))"
  by (auto simp: session_ok_def generate_address_def Let_def split: option.splits)

lemma session_ok_clear: "session_ok sim \<Longrightarrow> session_ok (clear_logs e sim)"
  by (auto simp: session_ok_def clear_logs_def)

lemma session_ok_reset: "session_ok sim \<Longrightarrow> session_ok (reset e sim)"
  by (auto simp: session_ok_def reset_def DeviceState_default_def)

lemma session_ok_apply: "session_ok sim \<Longrightarrow> session_ok (apply_operation c sim)"
proof (cases c)
  case (Pair e opn)
  assume "session_ok sim"
  then show ?thesis unfolding Pair
    by (cases opn) (simp_all add: session_ok_connect session_ok_disconnect session_ok_unlock
        session_ok_sign session_ok_confirm session_ok_generate session_ok_clear session_ok_reset)
qed

lemma session_ok_run: "session_ok sim \<Longrightarrow> session_ok (run cs sim)"
  by (induction cs arbitrary: sim) (simp_all add: session_ok_apply)

lemma session_ok_reachable: "session_ok (run cs init)"
  by (rule session_ok_run [OF session_ok_init])

lemma run_append: "run (cs @ ds) sim = run ds (run cs sim)"
  by (induction cs arbitrary: sim) simp_all

lemma unlock_wrong_state:
  assumes "is_connected (state sim)" "\<not> is_unlocked (state sim)" "pin \<noteq> default_pin"
  shows "pin_attempts (fst (unlock_device e pin sim)) = pin_attempts sim + 1"
    and "pending_transaction (fst (unlock_device e pin sim)) = pending_transaction sim"
    and "state (fst (unlock_device e pin sim)) =
           (if max_pin_attempts - (pin_attempts sim + 1) \<le> 0
            then (state sim)\<lparr>is_connected := False\<rparr> else state sim)"
    and "snd (unlock_device e pin sim) =
           (if max_pin_attempts - (pin_attempts sim + 1) \<le> 0 then Inl DeviceLocked
            else Inr (UnlockFailedResult False ''Invalid PIN''
                        (max_pin_attempts - (pin_attempts sim + 1))))"
  using assms by (simp_all add: unlock_device_def Let_def)

lemma unlock_not_connected:
  "\<not> is_connected (state sim) \<Longrightarrow> unlock_device e pin sim = (sim, Inl NotConnected)"
  by (simp add: unlock_device_def)

lemma connect_when_disconnected:
  assumes "\<not> is_connected (state sim)"
  shows "snd (connect_device e di sim) = Inr (ConnectResult True di ''home'')"
    and "pin_attempts (fst (connect_device e di sim)) = 0"
    and "is_connected (state (fst (connect_device e di sim)))"
    and "device_info (state (fst (connect_device e di sim))) = Some di"
    and "is_unlocked (state (fst (connect_device e di sim))) = is_unlocked (state sim)"
  using assms by (simp_all add: connect_device_def Let_def)

lemma stays_disconnected:
  assumes "\<not> is_connected (state sim)" "\<not> is_connect (snd c)"
  shows "\<not> is_connected (state (apply_operation c sim))"
proof (cases c)
  case (Pair e opn)
  show ?thesis using assms unfolding Pair
    by (cases opn)
      (auto simp: disconnect_device_def unlock_device_def sign_transaction_def
        confirm_transaction_def generate_address_def clear_logs_def reset_def
        DeviceState_default_def Let_def split: option.splits if_splits)
qed

lemma run_stays_disconnected:
  "\<not> is_connected (state sim) \<Longrightarrow> \<forall>c \<in> set cs. \<not> is_connect (snd c) \<Longrightarrow>
   \<not> is_connected (state (run cs sim))"
  by (induction cs arbitrary: sim) (simp_all add: stays_disconnected)

lemma disconnect_status:
  "is_connected (state sim) \<Longrightarrow>
   get_status (fst (disconnect_device e sim)) =
     \<lparr>st_device_state = DeviceState_default, st_pending_transaction = None,
      st_pin_attempts_remaining = max_pin_attempts - pin_attempts sim\<rparr>"
  by (simp add: disconnect_device_def get_status_def Let_def)

lemma confirm_true_result:
  assumes "awaiting_confirmation (state sim)" "pending_transaction sim = Some tx"
    "device_info (state sim) = Some di"
  shows "\<exists>r. snd (confirm_transaction e True sim) = Inr (ConfirmResult True r ''wallet'')"
    and "screen (state (fst (confirm_transaction e True sim))) = WALLET"
  using assms by (simp_all add: confirm_transaction_def Let_def)

text \<open>The sample session, step by step.\<close>

lemma sample_connect:
  "state (run [(sample_env, Connect ledger_info)] init) =
     DeviceState_default\<lparr>is_connected := True, device_info := Some ledger_info,
                          last_activity := Some 0\<rparr>"
  "pending_transaction (run [(sample_env, Connect ledger_info)] init) = None"
  "pin_attempts (run [(sample_env, Connect ledger_info)] init) = 0"
  by (simp_all add: connect_device_def init_def DeviceState_default_def sample_env_def Let_def)

lemma sample_unlock:
  "state (run [(sample_env, Connect ledger_info), (sample_env, Unlock ''1234'')] init) =
     DeviceState_default\<lparr>is_connected := True, device_info := Some ledger_info,
                          is_unlocked := True, screen := WALLET, last_activity := Some 0,
                          address := ''octra1qpzry9x8gf2tvdw0s3jn54khce6mua7l5ta2m8c'',
                          balance := ''125.80000000''\<rparr>"
  "pending_transaction
     (run [(sample_env, Connect ledger_info), (sample_env, Unlock ''1234'')] init) = None"
  by (simp_all add: connect_device_def unlock_device_def init_def DeviceState_default_def
      sample_env_def ledger_info_def default_pin_def dict_get_def mock_addresses_def
      mock_balances_def Let_def)

lemma sample_sign:
  "state (run [(sample_env, Connect ledger_info), (sample_env, Unlock ''1234''),
               (sample_env, Sign sample_transaction)] init) =
     DeviceState_default\<lparr>is_connected := True, device_info := Some ledger_info,
                          is_unlocked := True, screen := CONFIRM, last_activity := Some 0,
                          address := ''octra1qpzry9x8gf2tvdw0s3jn54khce6mua7l5ta2m8c'',
                          balance := ''125.80000000'', awaiting_confirmation := True\<rparr>"
  "pending_transaction
     (run [(sample_env, Connect ledger_info), (sample_env, Unlock ''1234''),
           (sample_env, Sign sample_transaction)] init) = Some sample_transaction"
  using sample_unlock
    run_append [of "[(sample_env, Connect ledger_info), (sample_env, Unlock ''1234'')]"
      "[(sample_env, Sign sample_transaction)]" init]
  by (simp_all add: sign_transaction_def DeviceState_default_def sample_env_def Let_def)

lemma sample_wrong_pin:
  "state (run [(sample_env, Connect ledger_info), (sample_env, Unlock ''0000'')] init) =
     DeviceState_default\<lparr>is_connected := True, device_info := Some ledger_info,
                          last_activity := Some 0\<rparr>"
  "pending_transaction
     (run [(sample_env, Connect ledger_info), (sample_env, Unlock ''0000'')] init) = None"
  "pin_attempts
     (run [(sample_env, Connect ledger_info), (sample_env, Unlock ''0000'')] init) = 1"
  by (simp_all add: connect_device_def unlock_device_def init_def DeviceState_default_def
      sample_env_def default_pin_def max_pin_attempts_def Let_def)

text \<open>The attempt counter stays within its bounds, and below the maximum while connected.\<close>

lemma pin_bounds_apply:
  assumes "0 \<le> pin_attempts sim"
    and "is_connected (state sim) \<longrightarrow> pin_attempts sim < max_pin_attempts"
  shows "0 \<le> pin_attempts (apply_operation c sim) \<and>
         (is_connected (state (apply_operation c sim)) \<longrightarrow>
            pin_attempts (apply_operation c sim) < max_pin_attempts)"
proof (cases c)
  case (Pair e opn)
  show ?thesis using assms unfolding Pair
    by (cases opn)
      (auto simp: connect_device_def disconnect_device_def unlock_device_def
        sign_transaction_def confirm_transaction_def generate_address_def clear_logs_def
        reset_def DeviceState_default_def max_pin_attempts_def Let_def
        split: option.splits if_splits)
qed

lemma pin_bounds_run:
  "0 \<le> pin_attempts sim \<Longrightarrow>
   is_connected (state sim) \<longrightarrow> pin_attempts sim < max_pin_attempts \<Longrightarrow>
   0 \<le> pin_attempts (run cs sim) \<and>
   (is_connected (state (run cs sim)) \<longrightarrow> pin_attempts (run cs sim) < max_pin_attempts)"
proof (induction cs arbitrary: sim)
  case Nil
  then show ?case by simp
next
  case (Cons c cs)
  from pin_bounds_apply [OF Cons.prems, of c]
  have "0 \<le> pin_attempts (apply_operation c sim)"
    and "is_connected (state (apply_operation c sim)) \<longrightarrow>
           pin_attempts (apply_operation c sim) < max_pin_attempts"
    by simp_all
  from Cons.IH [OF this] show ?case by simp
qed

lemma pin_bounds_reachable:
  "0 \<le> pin_attempts (run cs init) \<and>
   (is_connected (state (run cs init)) \<longrightarrow> pin_attempts (run cs init) < max_pin_attempts)"
  by (rule pin_bounds_run) (simp_all add: init_def DeviceState_default_def)

lemma sample_wrong_pin_sign:
  "state (run [(sample_env, Connect ledger_info), (sample_env, Unlock ''0000''),
               (sample_env, Sign sample_transaction)] init) =
     DeviceState_default\<lparr>is_connected := True, device_info := Some ledger_info,
                          last_activity := Some 0\<rparr>"
  "pin_attempts
     (run [(sample_env, Connect ledger_info), (sample_env, Unlock ''0000''),
           (sample_env, Sign sample_transaction)] init) = 1"
  using sample_wrong_pin
    run_append [of "[(sample_env, Connect ledger_info), (sample_env, Unlock ''0000'')]"
      "[(sample_env, Sign sample_transaction)]" init]
  by (simp_all add: sign_transaction_def DeviceState_default_def)

section \<open>The claims about the session\<close>

text \<open>
  C1. For every sequence of session operations starting from the initial state, after
  each operation the session satisfies: \<open>is_unlocked\<close> implies \<open>is_connected\<close>, and
  \<open>awaiting_confirmation\<close> implies that \<open>pending_transaction\<close> is not \<open>None\<close>. (A call
  runs from start to end without another call in between; every prefix of a sequence
  is a sequence.)
\<close>

theorem C1_session_invariants:
  "(is_unlocked (state (run cs init)) \<longrightarrow> is_connected (state (run cs init))) \<and>
   (awaiting_confirmation (state (run cs init)) \<longrightarrow> pending_transaction (run cs init) \<noteq> None)"
  using session_ok_reachable [of cs] by (simp add: session_ok_def)

theorem C1_session_invariants_witness:
  "is_unlocked (state (run [(sample_env, Connect ledger_info), (sample_env, Unlock ''1234''),
                           (sample_env, Sign sample_transaction)] init)) \<and>
   is_connected (state (run [(sample_env, Connect ledger_info), (sample_env, Unlock ''1234''),
                            (sample_env, Sign sample_transaction)] init)) \<and>
   awaiting_confirmation
     (state (run [(sample_env, Connect ledger_info), (sample_env, Unlock ''1234''),
                  (sample_env, Sign sample_transaction)] init)) \<and>
   pending_transaction (run [(sample_env, Connect ledger_info), (sample_env, Unlock ''1234''),
                             (sample_env, Sign sample_transaction)] init) \<noteq> None"
proof -
  let ?s = "run [(sample_env, Connect ledger_info), (sample_env, Unlock ''1234''),
                 (sample_env, Sign sample_transaction)] init"
  have u: "is_unlocked (state ?s)" and a: "awaiting_confirmation (state ?s)"
    by (simp_all only: sample_sign) (simp_all add: DeviceState_default_def)
  from C1_session_invariants [of "[(sample_env, Connect ledger_info),
      (sample_env, Unlock ''1234''), (sample_env, Sign sample_transaction)]"] u a
  show ?thesis by blast
qed

text \<open>
  C2, at the input where the code departs from it: connect, one wrong PIN, disconnect.
  The status after the disconnect has the default device state and no pending
  transaction, but \<open>pin_attempts_remaining\<close> is 2, not 3: \<open>disconnect_device\<close> leaves
  \<open>pin_attempts\<close> as it was.
\<close>

theorem C2_disconnect_keeps_pin_attempts:
  "get_status (fst (disconnect_device sample_env
      (run [(sample_env, Connect ledger_info), (sample_env, Unlock ''0000'')] init))) =
   \<lparr>st_device_state = DeviceState_default, st_pending_transaction = None,
    st_pin_attempts_remaining = 2\<rparr>"
proof -
  let ?s = "run [(sample_env, Connect ledger_info), (sample_env, Unlock ''0000'')] init"
  have c: "is_connected (state ?s)"
    by (simp only: sample_wrong_pin) (simp add: DeviceState_default_def)
  have p: "pin_attempts ?s = 1" by (rule sample_wrong_pin)
  show ?thesis
    using disconnect_status [OF c, of sample_env] p by (simp add: max_pin_attempts_def)
qed

text \<open>
  C3, at the input where the code departs from it: a confirmed transaction in the sample
  session. The dictionary returned carries the signature result, but its screen is
  \<open>wallet\<close>, not \<open>signed\<close>: the revert to the wallet screen is done inside the call,
  before the response is built, and the session is on the wallet screen when the call
  returns.
\<close>

theorem C3_confirm_response_screen_wallet:
  "(\<exists>r. snd (confirm_transaction sample_env True
            (run [(sample_env, Connect ledger_info), (sample_env, Unlock ''1234''),
                  (sample_env, Sign sample_transaction)] init)) =
          Inr (ConfirmResult True r ''wallet'')) \<and>
   screen (state (fst (confirm_transaction sample_env True
            (run [(sample_env, Connect ledger_info), (sample_env, Unlock ''1234''),
                  (sample_env, Sign sample_transaction)] init)))) = WALLET \<and>
   DeviceScreen_value SIGNED \<noteq> ''wallet''"
proof -
  let ?s = "run [(sample_env, Connect ledger_info), (sample_env, Unlock ''1234''),
                 (sample_env, Sign sample_transaction)] init"
  have a: "awaiting_confirmation (state ?s)" and d: "device_info (state ?s) = Some ledger_info"
    by (simp_all only: sample_sign) (simp_all add: DeviceState_default_def)
  have p: "pending_transaction ?s = Some sample_transaction" by (rule sample_sign)
  show ?thesis using confirm_true_result [OF a p d, of sample_env] by simp
qed

text \<open>
  C5 as stated fails in a connected, locked session that has a failed attempt counted
  from before: after a connect, one wrong PIN and a rejected signing request, the
  second of three consecutive wrong PINs locks the device, and the third call fails
  with \<open>NotConnected\<close>, not with \<open>DeviceLocked\<close>.
\<close>

theorem C5_third_call_not_always_locked:
  "is_connected (state (run [(sample_env, Connect ledger_info),
                            (sample_env, Unlock ''0000''),
                            (sample_env, Sign sample_transaction)] init)) \<and>
   \<not> is_unlocked (state (run [(sample_env, Connect ledger_info),
                              (sample_env, Unlock ''0000''),
                              (sample_env, Sign sample_transaction)] init)) \<and>
   snd (unlock_device sample_env ''1111''
          (run [(sample_env, Unlock ''1111'')]
             (run [(sample_env, Connect ledger_info), (sample_env, Unlock ''0000''),
                   (sample_env, Sign sample_transaction)] init))) =
     Inl DeviceLocked \<and>
   snd (unlock_device sample_env ''1111''
          (run [(sample_env, Unlock ''1111''), (sample_env, Unlock ''1111'')]
             (run [(sample_env, Connect ledger_info), (sample_env, Unlock ''0000''),
                   (sample_env, Sign sample_transaction)] init))) =
     Inl NotConnected \<and>
   Inl NotConnected \<noteq> (Inl DeviceLocked :: error + response)"
proof -
  let ?s = "run [(sample_env, Connect ledger_info), (sample_env, Unlock ''0000''),
                 (sample_env, Sign sample_transaction)] init"
  have c: "is_connected (state ?s)" and u: "\<not> is_unlocked (state ?s)"
    by (simp_all only: sample_wrong_pin_sign) (simp_all add: DeviceState_default_def)
  have p: "pin_attempts ?s = 1" by (rule sample_wrong_pin_sign)
  have w: "''1111'' \<noteq> default_pin" by (simp add: default_pin_def)
  let ?s1 = "fst (unlock_device sample_env ''1111'' ?s)"
  have c1: "is_connected (state ?s1)" and u1: "\<not> is_unlocked (state ?s1)"
    and p1: "pin_attempts ?s1 = 2"
    using unlock_wrong_state [OF c u w, of sample_env] c u p
    by (simp_all add: max_pin_attempts_def)
  let ?s2 = "fst (unlock_device sample_env ''1111'' ?s1)"
  have r2: "snd (unlock_device sample_env ''1111'' ?s1) = Inl DeviceLocked"
    and c2: "\<not> is_connected (state ?s2)"
    using unlock_wrong_state [OF c1 u1 w, of sample_env] p1
    by (simp_all add: max_pin_attempts_def)
  have r3: "snd (unlock_device sample_env ''1111'' ?s2) = Inl NotConnected"
    using unlock_not_connected [OF c2] by simp
  show ?thesis using c u r2 r3 by simp
qed

text \<open>
  C5, amended only in which call raises \<open>DeviceLocked\<close>. In every connected, locked
  session reached from the initial state, \<open>pin_attempts\<close> is 0, 1 or 2, and three
  consecutive \<open>unlock_device\<close> calls with a wrong PIN force \<open>is_connected = False\<close>. The
  call that brings \<open>pin_attempts\<close> to 3 fails with \<open>DeviceLocked\<close>: the third of the
  three when \<open>pin_attempts\<close> was 0 before them (the first two then return
  \<open>unlocked: False\<close> with 2 and 1 attempts remaining), the second when it was 1, the
  first when it was 2; the calls of the three after it fail with \<open>NotConnected\<close>.
  Afterwards, through any further calls other than \<open>connect_device\<close>, every
  \<open>unlock_device\<close> call fails with \<open>NotConnected\<close> and changes nothing, and the next
  \<open>connect_device\<close> succeeds and resets \<open>pin_attempts\<close> to 0.
\<close>

theorem C5_three_wrong_pins:
  assumes "sim = run cs0 init"
    and "is_connected (state sim)" and "\<not> is_unlocked (state sim)"
    and "p1 \<noteq> default_pin" and "p2 \<noteq> default_pin" and "p3 \<noteq> default_pin"
    and "\<forall>c \<in> set cs. \<not> is_connect (snd c)"
  shows "pin_attempts sim \<in> {0, 1, 2} \<and>
         snd (unlock_device e1 p1 sim) =
           (if pin_attempts sim = 2 then Inl DeviceLocked
            else Inr (UnlockFailedResult False ''Invalid PIN'' (2 - pin_attempts sim))) \<and>
         snd (unlock_device e2 p2 (run [(e1, Unlock p1)] sim)) =
           (if pin_attempts sim = 0 then Inr (UnlockFailedResult False ''Invalid PIN'' 1)
            else if pin_attempts sim = 1 then Inl DeviceLocked
            else Inl NotConnected) \<and>
         snd (unlock_device e3 p3 (run [(e1, Unlock p1), (e2, Unlock p2)] sim)) =
           (if pin_attempts sim = 0 then Inl DeviceLocked else Inl NotConnected) \<and>
         \<not> is_connected
             (state (run [(e1, Unlock p1), (e2, Unlock p2), (e3, Unlock p3)] sim)) \<and>
         unlock_device e p
             (run cs (run [(e1, Unlock p1), (e2, Unlock p2), (e3, Unlock p3)] sim)) =
           (run cs (run [(e1, Unlock p1), (e2, Unlock p2), (e3, Unlock p3)] sim),
            Inl NotConnected) \<and>
         snd (connect_device e' di
                (run cs (run [(e1, Unlock p1), (e2, Unlock p2), (e3, Unlock p3)] sim))) =
           Inr (ConnectResult True di ''home'') \<and>
         pin_attempts (fst (connect_device e' di
                (run cs (run [(e1, Unlock p1), (e2, Unlock p2), (e3, Unlock p3)] sim)))) = 0 \<and>
         is_connected (state (fst (connect_device e' di
                (run cs (run [(e1, Unlock p1), (e2, Unlock p2), (e3, Unlock p3)] sim)))))"
proof -
  let ?k = "pin_attempts sim"
  let ?s1 = "fst (unlock_device e1 p1 sim)"
  let ?s2 = "fst (unlock_device e2 p2 ?s1)"
  let ?s3 = "fst (unlock_device e3 p3 ?s2)"
  have k: "?k = 0 \<or> ?k = 1 \<or> ?k = 2"
    using pin_bounds_reachable [of cs0] assms(1,2) by (auto simp: max_pin_attempts_def)
  note w1 = unlock_wrong_state [OF assms(2,3,4), of e1]
  have a1: "pin_attempts ?s1 = ?k + 1" and u1: "\<not> is_unlocked (state ?s1)"
    using w1 assms(3) by (simp_all split: if_splits)
  have r1: "snd (unlock_device e1 p1 sim) =
              (if ?k = 2 then Inl DeviceLocked
               else Inr (UnlockFailedResult False ''Invalid PIN'' (2 - ?k)))"
    using w1(4) k by (auto simp: max_pin_attempts_def)
  have c1: "is_connected (state ?s1) = (?k \<noteq> 2)"
    using w1(3) k assms(2) by (auto simp: max_pin_attempts_def)
  have step2:
    "snd (unlock_device e2 p2 ?s1) =
       (if ?k = 0 then Inr (UnlockFailedResult False ''Invalid PIN'' 1)
        else if ?k = 1 then Inl DeviceLocked else Inl NotConnected) \<and>
     is_connected (state ?s2) = (?k = 0) \<and>
     \<not> is_unlocked (state ?s2) \<and>
     (?k = 0 \<longrightarrow> pin_attempts ?s2 = 2)"
  proof (cases "?k = 2")
    case True
    then have nc: "\<not> is_connected (state ?s1)" using c1 by simp
    show ?thesis
      using unlock_not_connected [OF nc, of e2 p2] True nc u1 by simp
  next
    case False
    then have co: "is_connected (state ?s1)" using c1 by simp
    note w2 = unlock_wrong_state [OF co u1 assms(5), of e2]
    show ?thesis
      using w2 a1 k False co u1 by (auto simp: max_pin_attempts_def)
  qed
  then have r2: "snd (unlock_device e2 p2 ?s1) =
              (if ?k = 0 then Inr (UnlockFailedResult False ''Invalid PIN'' 1)
               else if ?k = 1 then Inl DeviceLocked else Inl NotConnected)"
    and c2: "is_connected (state ?s2) = (?k = 0)"
    and u2: "\<not> is_unlocked (state ?s2)"
    and a2: "?k = 0 \<longrightarrow> pin_attempts ?s2 = 2"
    by blast+
  have step3:
    "snd (unlock_device e3 p3 ?s2) =
       (if ?k = 0 then Inl DeviceLocked else Inl NotConnected) \<and>
     \<not> is_connected (state ?s3)"
  proof (cases "?k = 0")
    case True
    then have co: "is_connected (state ?s2)" using c2 by simp
    note w3 = unlock_wrong_state [OF co u2 assms(6), of e3]
    show ?thesis
      using w3 a2 True by (simp add: max_pin_attempts_def)
  next
    case False
    then have nc: "\<not> is_connected (state ?s2)" using c2 by simp
    show ?thesis
      using unlock_not_connected [OF nc, of e3 p3] False nc by simp
  qed
  then have r3: "snd (unlock_device e3 p3 ?s2) =
              (if ?k = 0 then Inl DeviceLocked else Inl NotConnected)"
    and c3: "\<not> is_connected (state ?s3)"
    by blast+
  have c4: "\<not> is_connected (state (run cs ?s3))"
    by (rule run_stays_disconnected [OF c3 assms(7)])
  have k': "?k \<in> {0, 1, 2}" using k by auto
  show ?thesis
    using k' r1 r2 r3 c3 unlock_not_connected [OF c4, of e p]
      connect_when_disconnected(1,2,3) [OF c4, of e' di]
    by simp
qed

theorem C5_three_wrong_pins_witness:
  "is_connected (state (run [(sample_env, Connect ledger_info)] init)) \<and>
   \<not> is_unlocked (state (run [(sample_env, Connect ledger_info)] init)) \<and>
   ''0000'' \<noteq> default_pin \<and>
   \<not> is_connect (Sign sample_transaction) \<and> \<not> is_connect Reset \<and>
   snd (unlock_device sample_env ''0000''
          (run [(sample_env, Unlock ''0000''), (sample_env, Unlock ''0000'')]
             (run [(sample_env, Connect ledger_info)] init))) = Inl DeviceLocked \<and>
   \<not> is_connected
       (state (run [(sample_env, Unlock ''0000''), (sample_env, Unlock ''0000''),
                    (sample_env, Unlock ''0000'')]
                 (run [(sample_env, Connect ledger_info)] init))) \<and>
   snd (unlock_device sample_env ''1234''
          (run [(sample_env, Sign sample_transaction), (sample_env, Reset)]
             (run [(sample_env, Unlock ''0000''), (sample_env, Unlock ''0000''),
                   (sample_env, Unlock ''0000'')]
                (run [(sample_env, Connect ledger_info)] init)))) = Inl NotConnected \<and>
   pin_attempts (fst (connect_device sample_env ledger_info
          (run [(sample_env, Sign sample_transaction), (sample_env, Reset)]
             (run [(sample_env, Unlock ''0000''), (sample_env, Unlock ''0000''),
                   (sample_env, Unlock ''0000'')]
                (run [(sample_env, Connect ledger_info)] init))))) = 0"
proof -
  let ?s = "run [(sample_env, Connect ledger_info)] init"
  have c: "is_connected (state ?s)" and u: "\<not> is_unlocked (state ?s)"
    by (simp_all only: sample_connect) (simp_all add: DeviceState_default_def)
  have a: "pin_attempts ?s = 0" by (rule sample_connect)
  have w: "''0000'' \<noteq> default_pin" by (simp add: default_pin_def)
  have n: "\<forall>c \<in> set [(sample_env, Sign sample_transaction), (sample_env, Reset)].
             \<not> is_connect (snd c)" by simp
  from C5_three_wrong_pins [OF refl c u w w w n, of sample_env sample_env sample_env
      sample_env "''1234''" sample_env ledger_info]
  show ?thesis using c u w unfolding a by simp
qed

text \<open>
  C9. If the session is connected and already unlocked, \<open>unlock_device\<close> returns
  \<open>unlocked: True, already_unlocked: True\<close> for any PIN and leaves the whole simulator
  as it was: the state, the pending transaction, the attempt counter and the log.
\<close>

theorem C9_unlock_idempotent:
  "is_connected (state sim) \<Longrightarrow> is_unlocked (state sim) \<Longrightarrow>
   unlock_device e pin sim = (sim, Inr (AlreadyUnlockedResult True True))"
  by (simp add: unlock_device_def)

theorem C9_unlock_idempotent_witness:
  "is_connected (state (run [(sample_env, Connect ledger_info),
                            (sample_env, Unlock ''1234'')] init)) \<and>
   is_unlocked (state (run [(sample_env, Connect ledger_info),
                           (sample_env, Unlock ''1234'')] init)) \<and>
   unlock_device sample_env ''9999''
     (run [(sample_env, Connect ledger_info), (sample_env, Unlock ''1234'')] init) =
   (run [(sample_env, Connect ledger_info), (sample_env, Unlock ''1234'')] init,
    Inr (AlreadyUnlockedResult True True))"
proof -
  let ?s = "run [(sample_env, Connect ledger_info), (sample_env, Unlock ''1234'')] init"
  have c: "is_connected (state ?s)" and u: "is_unlocked (state ?s)"
    by (simp_all only: sample_unlock) (simp_all add: DeviceState_default_def)
  from C9_unlock_idempotent [OF c u, of sample_env "''9999''"] c u
  show ?thesis by simp
qed

text \<open>
  C10. In every session reached from the initial state, \<open>is_connected\<close> implies that
  \<open>device_info\<close> is present; and neither \<open>confirm_transaction\<close> nor \<open>generate_address\<close>
  fails there on reading \<open>device_info.device_type\<close> of \<open>None\<close>.
\<close>

theorem C10_device_info_present:
  "(is_connected (state (run cs init)) \<longrightarrow> device_info (state (run cs init)) \<noteq> None) \<and>
   snd (confirm_transaction e c (run cs init)) \<noteq> Inl AttributeError_None \<and>
   snd (generate_address e' path (run cs init)) \<noteq> Inl AttributeError_None"
proof -
  have ok: "session_ok (run cs init)" by (rule session_ok_reachable)
  have 1: "is_connected (state (run cs init)) \<longrightarrow> device_info (state (run cs init)) \<noteq> None"
    using ok by (simp add: session_ok_def)
  have 2: "snd (confirm_transaction e c (run cs init)) \<noteq> Inl AttributeError_None"
    using ok by (auto simp: session_ok_def confirm_transaction_def Let_def split: option.splits)
  have 3: "snd (generate_address e' path (run cs init)) \<noteq> Inl AttributeError_None"
    using ok by (auto simp: session_ok_def generate_address_def Let_def split: option.splits)
  show ?thesis using 1 2 3 by simp
qed

theorem C10_device_info_present_witness:
  "is_connected (state (run [(sample_env, Connect ledger_info), (sample_env, Unlock ''1234''),
                            (sample_env, Sign sample_transaction)] init)) \<and>
   device_info (state (run [(sample_env, Connect ledger_info), (sample_env, Unlock ''1234''),
                            (sample_env, Sign sample_transaction)] init)) \<noteq> None \<and>
   snd (confirm_transaction sample_env True
          (run [(sample_env, Connect ledger_info), (sample_env, Unlock ''1234''),
                (sample_env, Sign sample_transaction)] init)) \<noteq> Inl AttributeError_None \<and>
   snd (generate_address sample_env ''m/44''
          (run [(sample_env, Connect ledger_info), (sample_env, Unlock ''1234''),
                (sample_env, Sign sample_transaction)] init)) \<noteq> Inl AttributeError_None"
proof -
  let ?s = "run [(sample_env, Connect ledger_info), (sample_env, Unlock ''1234''),
                 (sample_env, Sign sample_transaction)] init"
  have c: "is_connected (state ?s)"
    by (simp only: sample_sign) (simp add: DeviceState_default_def)
  from C10_device_info_present [of "[(sample_env, Connect ledger_info),
      (sample_env, Unlock ''1234''), (sample_env, Sign sample_transaction)]"
      sample_env True sample_env "''m/44''"] c
  show ?thesis by blast
qed

section \<open>The claims about the activity log\<close>

text \<open>
  C6. The activity log never holds more than 100 entries after any sequence of
  \<open>_add_log\<close> appends; after 150 appends \<open>get_logs(1000)\<close> returns exactly the last 100
  appended entries in the order of their insertion; and for any limit at most 0
  \<open>get_logs\<close> returns the whole buffer.
\<close>

theorem C6_log_ring_buffer:
  "length (logs (add_logs as init)) \<le> 100 \<and>
   (length (logs sim) \<le> 100 \<longrightarrow> length (logs (add_logs as sim)) \<le> 100) \<and>
   (length as = 150 \<longrightarrow>
      get_logs 1000 (add_logs as sim) = map (entry_of sim) (drop 50 as)) \<and>
   (limit \<le> 0 \<longrightarrow> get_logs limit sim = logs sim)"
proof -
  have 0: "length (logs (add_logs as init)) \<le> 100"
    by (rule length_logs_add_logs) (simp add: init_def)
  have 1: "length (logs sim) \<le> 100 \<longrightarrow> length (logs (add_logs as sim)) \<le> 100"
    by (simp add: length_logs_add_logs)
  have 2: "get_logs 1000 (add_logs as sim) = map (entry_of sim) (drop 50 as)"
    if len: "length as = 150"
  proof -
    from len have ne: "as \<noteq> []" by auto
    have "logs (add_logs as sim) =
            drop (length (logs sim) + 50) (logs sim @ map (entry_of sim) as)"
      using logs_add_logs [OF ne, of sim] len by simp
    also have "\<dots> = map (entry_of sim) (drop 50 as)"
      by (simp add: drop_map)
    finally have l: "logs (add_logs as sim) = map (entry_of sim) (drop 50 as)" .
    show ?thesis by (simp add: get_logs_def l len)
  qed
  have 3: "limit \<le> 0 \<longrightarrow> get_logs limit sim = logs sim"
    by (simp add: get_logs_def)
  show ?thesis using 0 1 2 3 by blast
qed

theorem C6_log_ring_buffer_witness:
  "length (logs init) \<le> 100 \<and>
   length sample_log_args = 150 \<and>
   (- 5 :: int) \<le> 0 \<and>
   length (logs (add_logs sample_log_args init)) \<le> 100 \<and>
   get_logs 1000 (add_logs sample_log_args init) =
     map (entry_of init) (drop 50 sample_log_args) \<and>
   get_logs (- 5) init = logs init"
proof -
  have h1: "length (logs init) \<le> 100" by (simp add: init_def)
  have h2: "length sample_log_args = 150" by (simp add: sample_log_args_def)
  have h3: "(- 5 :: int) \<le> 0" by simp
  from C6_log_ring_buffer [of sample_log_args init "- 5"] h1 h2 h3
  show ?thesis by blast
qed

section \<open>The claims about the computation stub\<close>

lemma fold_max_Max: "fold max xs (x :: int) = Max (set (x # xs))"
  by (rule Max.set_eq_fold [symmetric])

lemma mock_compute_empty:
  "mock_compute e opn [] =
     Inr \<lparr>encrypted_data = sha256_hex e (FHEOperation_value opn @ ''_''),
          data_type = INTEGER, can_compute = True, noise_level = 2\<rparr>"
  by (simp add: mock_compute_def EncryptedValue_new_def valid_noise_def Let_def)

lemma mock_compute_nonempty:
  assumes "ops \<noteq> []" and "\<forall>v \<in> set ops. valid_noise (noise_level v)"
  shows "mock_compute e opn ops =
     Inr \<lparr>encrypted_data =
            sha256_hex e (FHEOperation_value opn @ ''_'' @ concat (map encrypted_data ops)),
          data_type = data_type (hd ops),
          can_compute = (min (Max (noise_level ` set ops) + 1) 10 < 8),
          noise_level = min (Max (noise_level ` set ops) + 1) 10\<rparr>"
proof -
  obtain x xs where ops: "ops = x # xs" using assms(1) by (cases ops) auto
  have mx: "fold max (map noise_level xs) (noise_level x) = Max (noise_level ` set ops)"
    by (simp add: fold_max_Max ops)
  have "Max (noise_level ` set ops) \<in> noise_level ` set ops"
    by (rule Max_in) (simp_all add: ops)
  then have "valid_noise (Max (noise_level ` set ops))" using assms(2) by auto
  then have v: "valid_noise (min (Max (noise_level ` set ops) + 1) 10)"
    by (simp add: valid_noise_def)
  show ?thesis
    unfolding mock_compute_def Let_def ops list.case mx [unfolded ops]
    using v [unfolded ops] by (simp add: EncryptedValue_new_def)
qed

lemma mock_compute_noise:
  assumes "ops \<noteq> []" and "\<forall>v \<in> set ops. valid_noise (noise_level v)"
  shows "\<exists>r. mock_compute e opn ops = Inr r \<and>
             noise_level r = min (Max (noise_level ` set ops) + 1) 10 \<and>
             can_compute r = (noise_level r < 8) \<and>
             (\<forall>v \<in> set ops. noise_level v \<le> noise_level r) \<and>
             noise_level r \<le> 10 \<and> valid_noise (noise_level r)"
proof -
  let ?m = "Max (noise_level ` set ops)"
  have le: "noise_level v \<le> ?m" if "v \<in> set ops" for v
    using that by (simp add: Max_ge)
  have "?m \<in> noise_level ` set ops"
    by (rule Max_in) (use assms(1) in simp_all)
  then have vm: "valid_noise ?m" using assms(2) by auto
  have mono: "\<forall>v \<in> set ops. noise_level v \<le> min (?m + 1) 10"
  proof
    fix v assume v: "v \<in> set ops"
    have "noise_level v \<le> ?m" by (rule le [OF v])
    moreover have "noise_level v \<le> 10" using assms(2) v by (simp add: valid_noise_def)
    ultimately show "noise_level v \<le> min (?m + 1) 10" by simp
  qed
  have v: "valid_noise (min (?m + 1) 10)" using vm by (simp add: valid_noise_def)
  show ?thesis
    using mock_compute_nonempty [OF assms, of e opn] mono v
    by (simp add: valid_noise_def)
qed

lemma feed_back_noise:
  assumes "valid_noise (noise_level v)"
    and "\<forall>s \<in> set steps. \<forall>w \<in> set (snd s). valid_noise (noise_level w)"
  shows "\<exists>r. feed_back e steps v = Inr r \<and> noise_level v \<le> noise_level r \<and>
             noise_level r \<le> 10 \<and> valid_noise (noise_level r)"
  using assms
proof (induction steps arbitrary: v)
  case Nil
  then show ?case by (simp add: valid_noise_def)
next
  case (Cons s steps)
  obtain opn others where s: "s = (opn, others)" by (cases s)
  have ne: "v # others \<noteq> []" by simp
  have va: "\<forall>w \<in> set (v # others). valid_noise (noise_level w)"
    using Cons.prems by (simp add: s)
  from mock_compute_noise [OF ne va, of e opn]
  obtain r where r: "mock_compute e opn (v # others) = Inr r"
    and ge: "noise_level v \<le> noise_level r" and vr: "valid_noise (noise_level r)"
    by auto
  from Cons.IH [OF vr] Cons.prems(2)
  obtain r' where r': "feed_back e steps r = Inr r'" "noise_level r \<le> noise_level r'"
    "noise_level r' \<le> 10" "valid_noise (noise_level r')"
    by auto
  show ?case using r r' ge by (simp add: s)
qed

text \<open>
  C4 as stated fails: with no operands the computation succeeds. The guards of
  \<open>_mock_compute\<close> for the empty list give it a result.
\<close>

theorem C4_empty_operands_succeed:
  "success (perform_computation sample_env
             \<lparr>operation = ADD, operands = [], parameters = None\<rparr>) = True \<and>
   res_error_message (perform_computation sample_env
             \<lparr>operation = ADD, operands = [], parameters = None\<rparr>) = None"
  by (simp add: perform_computation_def mock_compute_empty Let_def)

text \<open>
  C4, amended. For every operation kind, \<open>perform_computation\<close> with an empty operand
  list succeeds: \<open>success\<close> is true, there is no error message, the gas is the cost of
  the operation, and the result is an encrypted value of type \<open>INTEGER\<close> with noise
  level 2 and \<open>can_compute\<close> true, whose data is the hash of the operation name and an
  underscore.
\<close>

theorem C4_empty_operands_result:
  "operands request = [] \<Longrightarrow>
   perform_computation e request =
     \<lparr>res_operation = operation request,
      result = \<lparr>encrypted_data = sha256_hex e (FHEOperation_value (operation request) @ ''_''),
                data_type = INTEGER, can_compute = True, noise_level = 2\<rparr>,
      computation_time = time_time e 1 - time_time e 0,
      gas_used = dict_get operation_costs (operation request) 100,
      success = True, res_error_message = None\<rparr>"
  by (simp add: perform_computation_def mock_compute_empty Let_def)

theorem C4_empty_operands_result_witness:
  "operands \<lparr>operation = VOTE, operands = [], parameters = None\<rparr> = [] \<and>
   perform_computation sample_env \<lparr>operation = VOTE, operands = [], parameters = None\<rparr> =
     \<lparr>res_operation = VOTE,
      result = \<lparr>encrypted_data = ''vote_'', data_type = INTEGER, can_compute = True,
                noise_level = 2\<rparr>,
      computation_time = 1, gas_used = 200, success = True, res_error_message = None\<rparr>"
proof -
  have h: "operands \<lparr>operation = VOTE, operands = [], parameters = None\<rparr> = []" by simp
  from C4_empty_operands_result [OF h, of sample_env] h
  show ?thesis by (simp add: sample_env_def dict_get_def operation_costs_def)
qed

text \<open>
  C7. For every non-empty list of operands (encrypted values, so with noise levels
  from 1 to 10), \<open>_mock_compute\<close> returns a value with
  \<open>noise_level = min(max(operand noise levels) + 1, 10)\<close> and
  \<open>can_compute = (noise_level < 8)\<close>. So the result is at least as noisy as each
  operand and never above 10; and along any chain of computations that feed the result
  back as an operand, every step succeeds, and the noise level at the end is at least
  the one at the start and at most 10.
\<close>

theorem C7_noise_level:
  assumes "ops \<noteq> []" and "\<forall>v \<in> set ops. valid_noise (noise_level v)"
    and "valid_noise (noise_level v0)"
    and "\<forall>s \<in> set steps. \<forall>w \<in> set (snd s). valid_noise (noise_level w)"
  shows "(\<exists>r. mock_compute e opn ops = Inr r \<and>
              noise_level r = min (Max (noise_level ` set ops) + 1) 10 \<and>
              can_compute r = (noise_level r < 8) \<and>
              (\<forall>v \<in> set ops. noise_level v \<le> noise_level r) \<and>
              noise_level r \<le> 10 \<and> valid_noise (noise_level r)) \<and>
         (\<exists>r. feed_back e steps v0 = Inr r \<and> noise_level v0 \<le> noise_level r \<and>
              noise_level r \<le> 10)"
  using mock_compute_noise [OF assms(1,2), of e opn] feed_back_noise [OF assms(3,4), of e]
  by blast

theorem C7_noise_level_witness:
  "sample_operands \<noteq> [] \<and>
   list_all (\<lambda>v. valid_noise (noise_level v)) sample_operands \<and>
   valid_noise (noise_level sample_value) \<and>
   list_all (\<lambda>s. list_all (\<lambda>w. valid_noise (noise_level w)) (snd s)) sample_steps \<and>
   (\<exists>r. mock_compute sample_env MAX_OP sample_operands = Inr r \<and> noise_level r = 8 \<and>
        \<not> can_compute r) \<and>
   (\<exists>r. feed_back sample_env sample_steps sample_value = Inr r \<and> 9 \<le> noise_level r \<and>
        noise_level r \<le> 10)"
proof -
  have h1: "sample_operands \<noteq> []" by (simp add: sample_operands_def)
  have h2: "\<forall>v \<in> set sample_operands. valid_noise (noise_level v)"
    by (simp add: sample_operands_def valid_noise_def)
  have h3: "valid_noise (noise_level sample_value)"
    by (simp add: sample_value_def valid_noise_def)
  have h4: "\<forall>s \<in> set sample_steps. \<forall>w \<in> set (snd s). valid_noise (noise_level w)"
    by (simp add: sample_steps_def sample_operands_def valid_noise_def)
  have m: "Max (noise_level ` set sample_operands) = 7"
    by (simp add: sample_operands_def)
  have n: "noise_level sample_value = 9" by (simp add: sample_value_def)
  from C7_noise_level [OF h1 h2 h3 h4, of sample_env MAX_OP]
  show ?thesis using h1 h2 h3 h4 unfolding m n by (auto simp: list_all_iff)
qed

section \<open>The claims about the broadcast hub\<close>

lemma broadcast_loop_eq:
  "broadcast_loop send_text s cs sent disconnected =
     (sent @ map (\<lambda>c. (c, s)) (filter (\<lambda>c. send_text c s) cs),
      disconnected @ filter (\<lambda>c. \<not> send_text c s) cs)"
  by (induction cs arbitrary: sent disconnected) simp_all

lemma active_disconnect:
  "active_connections (disconnect w m) = remove1 w (active_connections m)"
  by (simp add: disconnect_def remove1_idem)

lemma active_fold_disconnect:
  "active_connections (fold disconnect ds m) = fold remove1 ds (active_connections m)"
  by (induction ds arbitrary: m) (simp_all add: active_disconnect)

lemma fold_remove1_Cons:
  "x \<notin> set ds \<Longrightarrow> fold remove1 ds (x # l) = x # fold remove1 ds l"
  by (induction ds arbitrary: l) auto

lemma fold_remove1_filter:
  "fold remove1 (filter (\<lambda>c. \<not> P c) xs) xs = filter P xs"
proof (induction xs)
  case Nil
  show ?case by simp
next
  case (Cons a xs)
  show ?case
  proof (cases "P a")
    case True
    then have "a \<notin> set (filter (\<lambda>c. \<not> P c) xs)" by simp
    then show ?thesis using True Cons.IH by (simp add: fold_remove1_Cons)
  next
    case False
    then show ?thesis using Cons.IH by simp
  qed
qed

lemma info_fold_disconnect:
  "mset ds \<subseteq># mset (active_connections m) \<Longrightarrow>
   connection_info (fold disconnect ds m) =
     (\<lambda>w. if w \<in> set ds then None else connection_info m w)"
proof (induction ds arbitrary: m)
  case Nil
  show ?case by simp
next
  case (Cons d ds)
  have d: "d \<in> set (active_connections m)"
    using Cons.prems by (metis insert_subset_eq_iff mset.simps(2) set_mset_mset)
  have sub: "mset ds \<subseteq># mset (active_connections (disconnect d m))"
    using Cons.prems d
    by (simp add: active_disconnect insert_subset_eq_iff)
  have ci: "connection_info (disconnect d m) = (connection_info m)(d := None)"
    using d by (simp add: disconnect_def)
  show ?case
    using Cons.IH [OF sub] by (auto simp: ci)
qed

lemma broadcast_result:
  "broadcast json_dumps send_text msg m =
     (fold disconnect (filter (\<lambda>c. \<not> send_text c (json_dumps msg)) (active_connections m)) m,
      map (\<lambda>c. (c, json_dumps msg))
        (filter (\<lambda>c. send_text c (json_dumps msg)) (active_connections m)))"
  by (cases "active_connections m = []") (simp_all add: broadcast_def broadcast_loop_eq Let_def)

text \<open>
  C8. A broadcast with no subscriber changes nothing, delivers nothing and raises
  nothing. With any subscribers, whichever of them fail on send, the message is
  delivered to every subscriber whose send succeeds, once for each time it is listed and
  in the order of the list; the subscribers left are exactly those whose send
  succeeded, and the records of the failing ones are removed with them.
\<close>

theorem C8_broadcast:
  "(active_connections m = [] \<longrightarrow> broadcast json_dumps send_text msg m = (m, [])) \<and>
   snd (broadcast json_dumps send_text msg m) =
     map (\<lambda>c. (c, json_dumps msg))
       (filter (\<lambda>c. send_text c (json_dumps msg)) (active_connections m)) \<and>
   active_connections (fst (broadcast json_dumps send_text msg m)) =
     filter (\<lambda>c. send_text c (json_dumps msg)) (active_connections m) \<and>
   set (active_connections (fst (broadcast json_dumps send_text msg m))) =
     set (active_connections m) - {c. \<not> send_text c (json_dumps msg)} \<and>
   connection_info (fst (broadcast json_dumps send_text msg m)) =
     (\<lambda>w. if w \<in> set (active_connections m) \<and> \<not> send_text w (json_dumps msg) then None
          else connection_info m w)"
proof -
  let ?ok = "\<lambda>c. send_text c (json_dumps msg)"
  let ?ds = "filter (\<lambda>c. \<not> ?ok c) (active_connections m)"
  have 1: "active_connections m = [] \<longrightarrow> broadcast json_dumps send_text msg m = (m, [])"
    by (simp add: broadcast_def)
  have 2: "snd (broadcast json_dumps send_text msg m) =
             map (\<lambda>c. (c, json_dumps msg)) (filter ?ok (active_connections m))"
    by (simp add: broadcast_result)
  have 3: "active_connections (fst (broadcast json_dumps send_text msg m)) =
             filter ?ok (active_connections m)"
    by (simp add: broadcast_result active_fold_disconnect fold_remove1_filter)
  have 4: "set (active_connections (fst (broadcast json_dumps send_text msg m))) =
             set (active_connections m) - {c. \<not> ?ok c}"
    unfolding 3 by auto
  have sub: "mset ?ds \<subseteq># mset (active_connections m)"
    by (simp add: mset_filter)
  have 5: "connection_info (fst (broadcast json_dumps send_text msg m)) =
             (\<lambda>w. if w \<in> set (active_connections m) \<and> \<not> ?ok w then None
                  else connection_info m w)"
    using info_fold_disconnect [OF sub] by (auto simp: broadcast_result)
  show ?thesis using 1 2 3 4 5 by blast
qed

theorem C8_broadcast_witness:
  "active_connections
     \<lparr>active_connections = [], connection_info = (\<lambda>w. None)\<rparr> = [] \<and>
   broadcast (\<lambda>s. s) (\<lambda>c s. c \<noteq> 2) ''event''
     \<lparr>active_connections = [], connection_info = (\<lambda>w. None)\<rparr> =
     (\<lparr>active_connections = [], connection_info = (\<lambda>w. None)\<rparr>, []) \<and>
   snd (broadcast (\<lambda>s. s) (\<lambda>c s. c \<noteq> 2) ''event'' sample_manager) =
     [(1, ''event''), (3, ''event'')] \<and>
   active_connections (fst (broadcast (\<lambda>s. s) (\<lambda>c s. c \<noteq> 2) ''event'' sample_manager)) =
     [1, 3]"
proof -
  have h: "active_connections
             \<lparr>active_connections = [], connection_info = (\<lambda>w. None)\<rparr> = []" by simp
  have a: "active_connections sample_manager = [1, 2, 3]" by (simp add: sample_manager_def)
  from C8_broadcast [of "\<lparr>active_connections = [], connection_info = (\<lambda>w. None)\<rparr>"
      "\<lambda>s. s" "\<lambda>c s. c \<noteq> 2" "''event''"]
    C8_broadcast [of sample_manager "\<lambda>s. s" "\<lambda>c s. c \<noteq> 2" "''event''"]
  show ?thesis using h unfolding a by simp
qed

end
